theory Spec2Isabelle
  imports Main
begin

section \<open>Data model of the chat page\<close>

text \<open>
  The chat page (\<^verbatim>\<open>frontend/src/pages/ChatPage.tsx\<close>) is a React component. Its state
  hooks become the fields of one record, every handler becomes a function from state to
  state, and every asynchronous handler is split at its \<^verbatim>\<open>await\<close>: the part that runs
  when the handler is called, and the part that runs when the request settles, applied to
  whatever the state is at that moment.

  JavaScript strings are modelled as \<^typ>\<open>string\<close>; the code units are those below 256.
\<close>

text \<open>\<^verbatim>\<open>ChatMessage\<close>, with the fields of the object literal built in \<^verbatim>\<open>sendMessage\<close>.\<close>

record ChatMessage =
  id_msg :: string
  userId :: string
  username :: string
  content :: string
  timestamp :: string
  roomId :: string
  isModerated :: bool

text \<open>\<^verbatim>\<open>ChatRoom\<close>, with the fields of the object literal built in \<^verbatim>\<open>loadChatRooms\<close>.\<close>

record ChatRoom =
  id_room :: string
  name :: string
  code :: string
  type_room :: string
  members :: "string list"
  createdBy :: string
  createdAt :: string
  maxMembers :: nat
  unreadCount :: nat

text \<open>The authenticated user of \<^verbatim>\<open>useAuth()\<close>; \<^verbatim>\<open>displayName\<close> may be absent.\<close>

record User =
  uid :: string
  displayName :: "string option"

text \<open>One call of \<^verbatim>\<open>toast({title, description, variant})\<close>.\<close>

record Toast =
  title :: string
  description :: string
  variant :: string

text \<open>
  The state hooks of \<^verbatim>\<open>ChatPage\<close> (the four dialog flags are presentation only and are left
  out), together with what the handlers read and write outside React: the
  \<^verbatim>\<open>chatUsername\<close> key of \<^verbatim>\<open>sessionStorage\<close>, the toasts raised so far and the
  \<^verbatim>\<open>currentUser\<close> of the authentication context.
\<close>

record ChatState =
  rooms :: "ChatRoom list"
  activeRoomId :: string
  messages :: "ChatMessage list"
  newMessage :: string
  isLoading :: bool
  isSending :: bool
  currentUsername :: string
  chatDisplayName :: string
  storedChatUsername :: "string option"
  toasts :: "Toast list"
  currentUser :: "User option"

text \<open>How a request settles: the promise is fulfilled with a value or it is rejected.\<close>

datatype 'a settled = Fulfilled 'a | Rejected

text \<open>\<^verbatim>\<open>xs || []\<close> for a list \<open>xs\<close> that a response may leave out.\<close>

definition orEmpty :: "'a list option \<Rightarrow> 'a list" where
  "orEmpty x = (case x of Some xs \<Rightarrow> xs | None \<Rightarrow> [])"

definition errorToast :: "string \<Rightarrow> Toast" where
  "errorToast d = \<lparr>title = ''Error'', description = d, variant = ''destructive''\<rparr>"

definition toast :: "Toast \<Rightarrow> ChatState \<Rightarrow> ChatState" where
  "toast t st = st\<lparr>toasts := toasts st @ [t]\<rparr>"

section \<open>Strings\<close>

text \<open>
  \<^verbatim>\<open>String.prototype.trim\<close> strips white space and line terminators from both ends. Of the
  code units below 256 these are TAB, LF, VT, FF, CR, SPACE and NBSP.
\<close>

definition isWhiteSpace :: "char \<Rightarrow> bool" where
  "isWhiteSpace c = (of_char c \<in> {9::nat, 10, 11, 12, 13, 32, 160})"

definition trim :: "string \<Rightarrow> string" where
  "trim s = rev (dropWhile isWhiteSpace (rev (dropWhile isWhiteSpace s)))"

definition startsWith :: "string \<Rightarrow> string \<Rightarrow> bool" where
  "startsWith s p = (take (length p) s = p)"

text \<open>Decimal rendering of a non-negative integer, as a template literal prints it.\<close>

fun digitsOf :: "nat \<Rightarrow> string" where
  "digitsOf n =
     (if n < 10 then [char_of (48 + n)]
      else digitsOf (n div 10) @ [char_of (48 + n mod 10)])"

declare digitsOf.simps [simp del]

section \<open>Identity resolver\<close>

text \<open>
  \<^verbatim>\<open>getSessionUsername\<close>. The argument \<open>r\<close> is the value of
  \<^verbatim>\<open>Math.floor(Math.random() * 9999)\<close> drawn by this call. An empty string is falsy, for
  the cached name as for the stored one.
\<close>

definition newUsername :: "nat \<Rightarrow> string" where
  "newUsername r = ''Student'' @ digitsOf (r + 1)"

definition generateUsername :: "nat \<Rightarrow> ChatState \<Rightarrow> string \<times> ChatState" where
  "generateUsername r st =
     (newUsername r,
      st\<lparr>storedChatUsername := Some (newUsername r), currentUsername := newUsername r\<rparr>)"

definition getSessionUsername :: "nat \<Rightarrow> ChatState \<Rightarrow> string \<times> ChatState" where
  "getSessionUsername r st =
     (if currentUsername st \<noteq> [] then (currentUsername st, st)
      else
        (case storedChatUsername st of
           Some storedUsername \<Rightarrow>
             (if storedUsername \<noteq> []
              then (storedUsername, st\<lparr>currentUsername := storedUsername\<rparr>)
              else generateUsername r st)
         | None \<Rightarrow> generateUsername r st))"

text \<open>
  \<^verbatim>\<open>loadChatProfile\<close>. It tests \<^verbatim>\<open>currentUser\<close> once, before the \<^verbatim>\<open>await\<close>: the request is
  issued for a signed-in user only, and the continuation keeps that user in its closure.
  When \<^verbatim>\<open>api.getChatProfile()\<close> settles, the response carries
  \<^verbatim>\<open>profile?.chatDisplayName\<close>, which may be absent; \<^verbatim>\<open>||\<close> skips an empty string as it
  skips an absent value. The continuation does not read \<^verbatim>\<open>currentUser\<close> again.
\<close>

definition orElse :: "string option \<Rightarrow> string \<Rightarrow> string" where
  "orElse a b = (case a of Some s \<Rightarrow> (if s \<noteq> [] then s else b) | None \<Rightarrow> b)"

definition loadChatProfile_start :: "ChatState \<Rightarrow> User option" where
  "loadChatProfile_start st = currentUser st"

definition loadChatProfile_settle :: "User \<Rightarrow> string option settled \<Rightarrow> ChatState \<Rightarrow> ChatState" where
  "loadChatProfile_settle u res st =
     (case res of
        Fulfilled profileName \<Rightarrow>
          st\<lparr>chatDisplayName := orElse profileName (orElse (displayName u) ''You'')\<rparr>
      | Rejected \<Rightarrow> st\<lparr>chatDisplayName := orElse (displayName u) ''You''\<rparr>)"

section \<open>Room membership projector\<close>

text \<open>The room that \<^verbatim>\<open>loadChatRooms\<close> adds; \<open>now\<close> is \<^verbatim>\<open>new Date().toISOString()\<close>.\<close>

definition globalRoom :: "string \<Rightarrow> ChatRoom" where
  "globalRoom now =
     \<lparr>id_room = ''global'', name = ''Global Chat'', code = ''GLOBAL'', type_room = ''global'',
      members = [], createdBy = ''system'', createdAt = now, maxMembers = 1000,
      unreadCount = 0\<rparr>"

text \<open>
  \<^verbatim>\<open>loadChatRooms\<close>. Before the \<^verbatim>\<open>await\<close> it only tests \<^verbatim>\<open>currentUser\<close>: the request is
  issued for a signed-in user, and nothing is written. The continuation runs when
  \<^verbatim>\<open>api.getChatRooms()\<close> settles and never reads \<^verbatim>\<open>currentUser\<close>. \<^verbatim>\<open>response.rooms\<close> may be
  absent: \<^verbatim>\<open>response.rooms || []\<close> is then the empty list and
  \<^verbatim>\<open>response.rooms?.find(...)\<close> finds nothing. The second \<^verbatim>\<open>setRooms\<close> is a functional
  update, so it sees the list the first one stored.
\<close>

definition loadChatRooms_start :: "ChatState \<Rightarrow> bool" where
  "loadChatRooms_start st = (currentUser st \<noteq> None)"

definition loadChatRooms_settle ::
  "string \<Rightarrow> ChatRoom list option settled \<Rightarrow> ChatState \<Rightarrow> ChatState" where
  "loadChatRooms_settle now res st =
     (case res of
        Fulfilled responseRooms \<Rightarrow>
          (let st1 = st\<lparr>rooms := orEmpty responseRooms\<rparr>;
               found = (case responseRooms of
                          Some rs \<Rightarrow> find (\<lambda>room. id_room room = ''global'') rs
                        | None \<Rightarrow> None)
           in if found = None then st1\<lparr>rooms := rooms st1 @ [globalRoom now]\<rparr> else st1)
      | Rejected \<Rightarrow> toast (errorToast ''Failed to load chat rooms'') st)"

text \<open>The room lifecycle handlers, called by the dialogs.\<close>

definition handleRoomSelect :: "string \<Rightarrow> ChatState \<Rightarrow> ChatState" where
  "handleRoomSelect r st = st\<lparr>activeRoomId := r\<rparr>"

definition handleRoomCreated :: "ChatRoom \<Rightarrow> ChatState \<Rightarrow> ChatState" where
  "handleRoomCreated room st = st\<lparr>rooms := rooms st @ [room], activeRoomId := id_room room\<rparr>"

definition handleRoomJoined :: "ChatRoom \<Rightarrow> ChatState \<Rightarrow> ChatState" where
  "handleRoomJoined room st = st\<lparr>rooms := rooms st @ [room], activeRoomId := id_room room\<rparr>"

definition handleRoomUpdated :: "ChatRoom \<Rightarrow> ChatState \<Rightarrow> ChatState" where
  "handleRoomUpdated updatedRoom st =
     st\<lparr>rooms := map (\<lambda>room. if id_room room = id_room updatedRoom then updatedRoom else room)
                     (rooms st)\<rparr>"

definition handleRoomLeft :: "string \<Rightarrow> ChatState \<Rightarrow> ChatState" where
  "handleRoomLeft r st =
     (let st1 = st\<lparr>rooms := filter (\<lambda>room. id_room room \<noteq> r) (rooms st)\<rparr>
      in if activeRoomId st = r then st1\<lparr>activeRoomId := ''global''\<rparr> else st1)"

definition handleRoomDeleted :: "string \<Rightarrow> ChatState \<Rightarrow> ChatState" where
  "handleRoomDeleted r st =
     (let st1 = st\<lparr>rooms := filter (\<lambda>room. id_room room \<noteq> r) (rooms st)\<rparr>
      in if activeRoomId st = r then st1\<lparr>activeRoomId := ''global''\<rparr> else st1)"

section \<open>Session state synchronizer\<close>

text \<open>
  \<^verbatim>\<open>loadRoomMessages(roomId)\<close>: before the \<^verbatim>\<open>await\<close> it sets the loading flag; when
  \<^verbatim>\<open>api.getRoomMessages(roomId)\<close> settles it stores \<^verbatim>\<open>response.messages || []\<close> or raises a
  toast, and clears the flag in either case. The continuation holds \<^verbatim>\<open>roomId\<close> (here
  \<open>target\<close>) in its closure and never reads it, nor the active room.
\<close>

definition loadRoomMessages_start :: "string \<Rightarrow> ChatState \<Rightarrow> ChatState" where
  "loadRoomMessages_start target st = st\<lparr>isLoading := True\<rparr>"

definition loadRoomMessages_settle ::
  "string \<Rightarrow> ChatMessage list option settled \<Rightarrow> ChatState \<Rightarrow> ChatState" where
  "loadRoomMessages_settle target res st =
     (case res of
        Fulfilled responseMessages \<Rightarrow>
          st\<lparr>messages := orEmpty responseMessages, isLoading := False\<rparr>
      | Rejected \<Rightarrow> (toast (errorToast ''Failed to load messages'') st)\<lparr>isLoading := False\<rparr>)"

text \<open>
  What the continuation of \<^verbatim>\<open>sendMessage\<close> keeps in its closure across the \<^verbatim>\<open>await\<close>
  (\<open>tempId\<close>, \<open>messageText\<close>), and the arguments of the \<^verbatim>\<open>api.sendRoomMessage\<close> call it
  waits for.
\<close>

record PendingSend =
  tempId :: string
  messageText :: string
  requestRoomId :: string
  requestUsername :: "string option"

text \<open>
  \<^verbatim>\<open>sendMessage\<close> up to its \<^verbatim>\<open>await\<close>. \<open>ms\<close> is \<^verbatim>\<open>Date.now()\<close>, \<open>suffix\<close> is
  \<^verbatim>\<open>Math.random().toString(36).substr(2, 9)\<close>, \<open>now\<close> is \<^verbatim>\<open>new Date().toISOString()\<close> and
  \<open>r\<close> is the draw of \<^verbatim>\<open>getSessionUsername\<close>, which is called for the optimistic message and
  again for the request; the second call finds the name the first one left and draws
  nothing. The result is \<open>None\<close> when the guard returns early.
\<close>

definition sendMessage_start ::
  "nat \<Rightarrow> string \<Rightarrow> string \<Rightarrow> nat \<Rightarrow> ChatState \<Rightarrow> PendingSend option \<times> ChatState" where
  "sendMessage_start ms suffix now r st =
     (case currentUser st of
        None \<Rightarrow> (None, st)
      | Some u \<Rightarrow>
          (if trim (newMessage st) = [] \<or> isSending st then (None, st)
           else
             (let trimmed = trim (newMessage st);
                  st1 = st\<lparr>newMessage := [], isSending := True\<rparr>;
                  tid = ''temp_'' @ digitsOf ms @ ''_'' @ suffix;
                  (uname, st2) = (if activeRoomId st = ''global'' then getSessionUsername r st1
                                  else (chatDisplayName st, st1));
                  optimisticMessage =
                    \<lparr>id_msg = tid, userId = uid u, username = uname, content = trimmed,
                     timestamp = now, roomId = activeRoomId st, isModerated = False\<rparr>;
                  st3 = st2\<lparr>messages := messages st2 @ [optimisticMessage]\<rparr>;
                  (arg, st4) = (if activeRoomId st = ''global''
                                then (let (n, s) = getSessionUsername r st3 in (Some n, s))
                                else (None, st3))
              in (Some \<lparr>tempId = tid, messageText = trimmed, requestRoomId = activeRoomId st,
                         requestUsername = arg\<rparr>, st4))))"

text \<open>
  \<^verbatim>\<open>sendMessage\<close> from the moment \<^verbatim>\<open>api.sendRoomMessage\<close> settles, with
  \<^verbatim>\<open>response.message\<close> when it is fulfilled. Both updates of the message list are
  functional updates of the list as it is then.
\<close>

definition sendMessage_settle :: "PendingSend \<Rightarrow> ChatMessage settled \<Rightarrow> ChatState \<Rightarrow> ChatState" where
  "sendMessage_settle p res st =
     (case res of
        Fulfilled responseMessage \<Rightarrow>
          st\<lparr>messages := map (\<lambda>msg. if id_msg msg = tempId p then responseMessage else msg)
                             (messages st),
             isSending := False\<rparr>
      | Rejected \<Rightarrow>
          (toast (errorToast ''Failed to send message'')
             (st\<lparr>messages := filter (\<lambda>msg. id_msg msg \<noteq> tempId p) (messages st),
                 newMessage := messageText p\<rparr>))\<lparr>isSending := False\<rparr>)"

text \<open>What the message list renders for one message.\<close>

definition isPending :: "ChatMessage \<Rightarrow> bool" where
  "isPending message = startsWith (id_msg message) ''temp_''"

definition isOwnMessage :: "nat \<Rightarrow> ChatMessage \<Rightarrow> ChatState \<Rightarrow> bool \<times> ChatState" where
  "isOwnMessage r message st =
     (case currentUser st of
        None \<Rightarrow> (False, st)
      | Some u \<Rightarrow>
          (if activeRoomId st = ''global''
           then (let (n, st1) = getSessionUsername r st in (username message = n, st1))
           else (userId message = uid u, st)))"

text \<open>
  One render of the message list: nothing is mapped while the list is loading or empty;
  otherwise \<^verbatim>\<open>isOwnMessage\<close> is computed for each message in turn. Only the first call of
  \<^verbatim>\<open>getSessionUsername\<close> in a render can reach its draw \<open>r\<close>.
\<close>

definition render :: "nat \<Rightarrow> ChatState \<Rightarrow> ChatState" where
  "render r st =
     (if isLoading st \<or> messages st = [] then st
      else fold (\<lambda>message s. snd (isOwnMessage r message s)) (messages st) st)"

section \<open>The page as a transition system\<close>

text \<open>
  The page together with the requests it has issued that have not settled yet: the room
  ids of the \<^verbatim>\<open>api.getRoomMessages\<close> calls, the closures of the \<^verbatim>\<open>api.sendRoomMessage\<close>
  calls, whether \<^verbatim>\<open>api.getChatRooms\<close> is outstanding, and the user in the closure of an
  outstanding \<^verbatim>\<open>api.getChatProfile\<close> call.
\<close>

record Config =
  ui :: ChatState
  loadsInFlight :: "string list"
  sendsInFlight :: "PendingSend list"
  roomsInFlight :: bool
  profileInFlight :: "User option"

text \<open>
  \<^verbatim>\<open>useEffect(..., [activeRoomId])\<close>: after a handler has changed the active room to a
  non-empty id, \<^verbatim>\<open>loadRoomMessages(activeRoomId)\<close> is called. \<open>before\<close> is the active room
  of the previous render.
\<close>

definition activeRoomEffect :: "string \<Rightarrow> Config \<Rightarrow> Config" where
  "activeRoomEffect before c =
     (if activeRoomId (ui c) \<noteq> before \<and> activeRoomId (ui c) \<noteq> []
      then c\<lparr>ui := loadRoomMessages_start (activeRoomId (ui c)) (ui c),
             loadsInFlight := loadsInFlight c @ [activeRoomId (ui c)]\<rparr>
      else c)"

text \<open>The \<^verbatim>\<open>useState\<close> initial values, and the page after its mount effects have run.\<close>

definition initialState :: "User option \<Rightarrow> string option \<Rightarrow> ChatState" where
  "initialState user stored =
     \<lparr>rooms = [], activeRoomId = ''global'', messages = [], newMessage = [],
      isLoading = False, isSending = False, currentUsername = [], chatDisplayName = [],
      storedChatUsername = stored, toasts = [], currentUser = user\<rparr>"

definition mount :: "User option \<Rightarrow> string option \<Rightarrow> Config" where
  "mount user stored =
     \<lparr>ui = loadRoomMessages_start ''global'' (initialState user stored),
      loadsInFlight = [''global''], sendsInFlight = [],
      roomsInFlight = loadChatRooms_start (initialState user stored),
      profileInFlight = loadChatProfile_start (initialState user stored)\<rparr>"

text \<open>
  What can happen to a mounted page: the user acts (selects a room, types, submits, a
  dialog reports a room event), the page renders, or a request settles. \<open>Typed\<close> is the
  input's \<^verbatim>\<open>onChange\<close>; the input is disabled while a send is in flight.
\<close>

datatype Event =
    SelectRoom string
  | RoomCreated ChatRoom
  | RoomJoined ChatRoom
  | RoomUpdated ChatRoom
  | RoomLeft string
  | RoomDeleted string
  | Typed string
  | Submit nat string string nat
  | Rendered nat
  | SendSettled string "ChatMessage settled"
  | MessagesSettled string "ChatMessage list option settled"
  | RoomsSettled string "ChatRoom list option settled"
  | ProfileSettled "string option settled"

fun step :: "Event \<Rightarrow> Config \<Rightarrow> Config" where
  "step (SelectRoom r) c =
     activeRoomEffect (activeRoomId (ui c)) (c\<lparr>ui := handleRoomSelect r (ui c)\<rparr>)"
| "step (RoomCreated room) c =
     activeRoomEffect (activeRoomId (ui c)) (c\<lparr>ui := handleRoomCreated room (ui c)\<rparr>)"
| "step (RoomJoined room) c =
     activeRoomEffect (activeRoomId (ui c)) (c\<lparr>ui := handleRoomJoined room (ui c)\<rparr>)"
| "step (RoomUpdated room) c = c\<lparr>ui := handleRoomUpdated room (ui c)\<rparr>"
| "step (RoomLeft r) c =
     activeRoomEffect (activeRoomId (ui c)) (c\<lparr>ui := handleRoomLeft r (ui c)\<rparr>)"
| "step (RoomDeleted r) c =
     activeRoomEffect (activeRoomId (ui c)) (c\<lparr>ui := handleRoomDeleted r (ui c)\<rparr>)"
| "step (Typed s) c = (if isSending (ui c) then c else c\<lparr>ui := (ui c)\<lparr>newMessage := s\<rparr>\<rparr>)"
| "step (Submit ms suffix now r) c =
     (case sendMessage_start ms suffix now r (ui c) of
        (None, st) \<Rightarrow> c\<lparr>ui := st\<rparr>
      | (Some p, st) \<Rightarrow> c\<lparr>ui := st, sendsInFlight := sendsInFlight c @ [p]\<rparr>)"
| "step (Rendered r) c = c\<lparr>ui := render r (ui c)\<rparr>"
| "step (SendSettled tid res) c =
     (case find (\<lambda>p. tempId p = tid) (sendsInFlight c) of
        None \<Rightarrow> c
      | Some p \<Rightarrow> c\<lparr>ui := sendMessage_settle p res (ui c),
                     sendsInFlight := remove1 p (sendsInFlight c)\<rparr>)"
| "step (MessagesSettled target res) c =
     (if target \<in> set (loadsInFlight c)
      then c\<lparr>ui := loadRoomMessages_settle target res (ui c),
             loadsInFlight := remove1 target (loadsInFlight c)\<rparr>
      else c)"
| "step (RoomsSettled now res) c =
     (if roomsInFlight c
      then c\<lparr>ui := loadChatRooms_settle now res (ui c), roomsInFlight := False\<rparr>
      else c)"
| "step (ProfileSettled res) c =
     (case profileInFlight c of
        None \<Rightarrow> c
      | Some u \<Rightarrow> c\<lparr>ui := loadChatProfile_settle u res (ui c), profileInFlight := None\<rparr>)"

definition run :: "Event list \<Rightarrow> Config \<Rightarrow> Config" where
  "run evs c = fold step evs c"

text \<open>
  Identifiers assigned by the service do not carry the prefix reserved for pending
  messages: this is what an event has to satisfy when it delivers messages of the service.
\<close>

fun serverIdsOk :: "Event \<Rightarrow> bool" where
  "serverIdsOk (SendSettled tid (Fulfilled m)) = (\<not> isPending m)"
| "serverIdsOk (MessagesSettled target (Fulfilled (Some ms))) = (filter isPending ms = [])"
| "serverIdsOk _ = True"

section \<open>Measures and invariants\<close>

text \<open>How many rooms of a list carry a given id, and how many messages are pending.\<close>

definition countRoomId :: "string \<Rightarrow> ChatRoom list \<Rightarrow> nat" where
  "countRoomId r rs = length (filter (\<lambda>room. id_room room = r) rs)"

definition pendingCount :: "ChatMessage list \<Rightarrow> nat" where
  "pendingCount ms = length (filter isPending ms)"

text \<open>
  The invariant behind serialized sends: the sending flag is set exactly while one send is
  outstanding, and every pending message of the list belongs to that send.
\<close>

definition sendInvariant :: "Config \<Rightarrow> bool" where
  "sendInvariant c =
     ((isSending (ui c) \<longrightarrow>
         (\<exists>p. sendsInFlight c = [p] \<and>
              (\<forall>m \<in> set (messages (ui c)). isPending m \<longrightarrow> id_msg m = tempId p) \<and>
              pendingCount (messages (ui c)) \<le> 1)) \<and>
      (\<not> isSending (ui c) \<longrightarrow>
         sendsInFlight c = [] \<and> pendingCount (messages (ui c)) = 0))"


text \<open>The two places that hold the anonymous name: the state hook and the session store.\<close>

definition identityOf :: "ChatState \<Rightarrow> string \<times> string option" where
  "identityOf st = (currentUsername st, storedChatUsername st)"

section \<open>Example data\<close>

definition exUser :: User where
  "exUser = \<lparr>uid = ''u1'', displayName = Some ''Ann''\<rparr>"

definition exMsg :: "string \<Rightarrow> string \<Rightarrow> string \<Rightarrow> ChatMessage" where
  "exMsg i room txt =
     \<lparr>id_msg = i, userId = ''u2'', username = ''Student7'', content = txt,
      timestamp = ''2024-05-01T10:00:00.000Z'', roomId = room, isModerated = False\<rparr>"

definition exRoom :: "string \<Rightarrow> ChatRoom" where
  "exRoom i =
     \<lparr>id_room = i, name = ''Study group'', code = ''ABC123'', type_room = ''private'',
      members = [''u1''], createdBy = ''u1'', createdAt = ''2024-05-01T09:00:00.000Z'',
      maxMembers = 5, unreadCount = 0\<rparr>"

text \<open>A signed-in user looking at the global room, with one message shown and a draft typed.\<close>

definition exTyping :: ChatState where
  "exTyping =
     (initialState (Some exUser) None)
       \<lparr>messages := [exMsg ''m1'' ''global'' ''hi''], newMessage := '' hello ''\<rparr>"

text \<open>
  The room-switch race: the user selects \<open>r1\<close>, then \<open>r2\<close> before the history of \<open>r1\<close> has
  arrived; the history of \<open>r2\<close> arrives; the history of \<open>r1\<close> arrives last.
\<close>

definition raceTrace :: "Event list" where
  "raceTrace =
     [SelectRoom ''r1'', SelectRoom ''r2'',
      MessagesSettled ''r2'' (Fulfilled (Some [exMsg ''b1'' ''r2'' ''in r2'']))]"

definition lateCompletion :: Event where
  "lateCompletion = MessagesSettled ''r1'' (Fulfilled (Some [exMsg ''a1'' ''r1'' ''in r1'']))"

text \<open>A user types a draft, submits it, submits again at once, and the send is confirmed.\<close>

definition sendTrace :: "Event list" where
  "sendTrace =
     [Typed '' hello '',
      Submit 1700000000000 ''k3j9x2a1b'' ''2024-05-01T10:01:00.000Z'' 41,
      Submit 1700000000005 ''q8w7e6r5t'' ''2024-05-01T10:01:00.005Z'' 77,
      SendSettled (''temp_'' @ digitsOf 1700000000000 @ ''_'' @ ''k3j9x2a1b'')
        (Fulfilled (exMsg ''m2'' ''global'' ''hello''))]"

definition exSending :: Config where
  "exSending = run (take 2 sendTrace) (mount (Some exUser) None)"



text \<open>A response of the room service that holds two rooms with id \<open>global\<close>.\<close>

definition twoGlobals :: "ChatRoom list option" where
  "twoGlobals = Some [globalRoom ''2024-04-01T08:00:00.000Z'', exRoom ''global'']"

section \<open>Frame lemmas\<close>

lemma newUsername_nonempty: "newUsername r \<noteq> []"
  by (simp add: newUsername_def)

lemma getSessionUsername_frame:
  "messages (snd (getSessionUsername r st)) = messages st"
  "isSending (snd (getSessionUsername r st)) = isSending st"
  "newMessage (snd (getSessionUsername r st)) = newMessage st"
  "activeRoomId (snd (getSessionUsername r st)) = activeRoomId st"
  "currentUser (snd (getSessionUsername r st)) = currentUser st"
  by (simp_all add: getSessionUsername_def generateUsername_def split: option.splits)

lemma getSessionUsername_cong:
  "currentUsername s = currentUsername t \<Longrightarrow> storedChatUsername s = storedChatUsername t
   \<Longrightarrow> fst (getSessionUsername r s) = fst (getSessionUsername r t)"
  by (simp add: getSessionUsername_def generateUsername_def split: option.splits)

lemma getSessionUsername_cached:
  "currentUsername st \<noteq> [] \<Longrightarrow> getSessionUsername r st = (currentUsername st, st)"
  by (simp add: getSessionUsername_def)

lemma getSessionUsername_caches:
  "currentUsername (snd (getSessionUsername r st)) = fst (getSessionUsername r st)"
  "fst (getSessionUsername r st) \<noteq> []"
  by (simp_all add: getSessionUsername_def generateUsername_def newUsername_nonempty
      split: option.splits)

lemma isOwnMessage_frame:
  "messages (snd (isOwnMessage r m st)) = messages st"
  "isSending (snd (isOwnMessage r m st)) = isSending st"
  by (simp_all add: isOwnMessage_def case_prod_beta getSessionUsername_frame
      split: option.splits)

lemma fold_isOwnMessage_frame:
  "messages (fold (\<lambda>message s. snd (isOwnMessage r message s)) xs st) = messages st \<and>
   isSending (fold (\<lambda>message s. snd (isOwnMessage r message s)) xs st) = isSending st"
  by (induction xs arbitrary: st) (simp_all add: isOwnMessage_frame)

lemma render_frame:
  "messages (render r st) = messages st" "isSending (render r st) = isSending st"
  by (simp_all add: render_def fold_isOwnMessage_frame)

lemma activeRoomEffect_frame:
  "messages (ui (activeRoomEffect b c)) = messages (ui c)"
  "isSending (ui (activeRoomEffect b c)) = isSending (ui c)"
  "sendsInFlight (activeRoomEffect b c) = sendsInFlight c"
  by (simp_all add: activeRoomEffect_def loadRoomMessages_start_def)

section \<open>What a submit does before the request is issued\<close>

lemma sendMessage_start_rejected:
  "currentUser st = None \<or> trim (newMessage st) = [] \<or> isSending st
   \<Longrightarrow> sendMessage_start ms suffix now r st = (None, st)"
  by (auto simp add: sendMessage_start_def split: option.splits)

lemma sendMessage_start_tempId:
  assumes "currentUser st = Some u" "trim (newMessage st) \<noteq> []" "\<not> isSending st"
  shows "\<exists>p. fst (sendMessage_start ms suffix now r st) = Some p
           \<and> tempId p = ''temp_'' @ digitsOf ms @ ''_'' @ suffix
           \<and> messageText p = trim (newMessage st)"
  using assms by (simp add: sendMessage_start_def Let_def case_prod_beta)

lemma sendMessage_start_messages:
  assumes "currentUser st = Some u" "trim (newMessage st) \<noteq> []" "\<not> isSending st"
  shows "messages (snd (sendMessage_start ms suffix now r st)) = messages st @
           [\<lparr>id_msg = ''temp_'' @ digitsOf ms @ ''_'' @ suffix, userId = uid u,
             username = (if activeRoomId st = ''global'' then fst (getSessionUsername r st)
                         else chatDisplayName st),
             content = trim (newMessage st), timestamp = now, roomId = activeRoomId st,
             isModerated = False\<rparr>]"
proof -
  have "fst (getSessionUsername r (st\<lparr>newMessage := [], isSending := True\<rparr>))
        = fst (getSessionUsername r st)"
    by (rule getSessionUsername_cong) simp_all
  then show ?thesis
    using assms
    by (simp add: sendMessage_start_def Let_def case_prod_beta getSessionUsername_frame)
qed

lemma sendMessage_start_flags:
  assumes "currentUser st = Some u" "trim (newMessage st) \<noteq> []" "\<not> isSending st"
  shows "isSending (snd (sendMessage_start ms suffix now r st))"
        "newMessage (snd (sendMessage_start ms suffix now r st)) = []"
  using assms
  by (simp_all add: sendMessage_start_def Let_def case_prod_beta getSessionUsername_frame)

section \<open>Pending messages\<close>

lemma pendingCount_zero: "(pendingCount xs = 0) = (\<forall>m \<in> set xs. \<not> isPending m)"
  by (simp add: pendingCount_def filter_empty_conv)

lemma tempId_isPending: "id_msg m = ''temp_'' @ s \<Longrightarrow> isPending m"
  by (simp add: isPending_def startsWith_def)

lemma replace_clears_pending:
  "\<forall>m \<in> set xs. isPending m \<longrightarrow> id_msg m = t \<Longrightarrow> \<not> isPending m' \<Longrightarrow>
   pendingCount (map (\<lambda>msg. if id_msg msg = t then m' else msg) xs) = 0"
  unfolding pendingCount_zero by auto

lemma remove_clears_pending:
  "\<forall>m \<in> set xs. isPending m \<longrightarrow> id_msg m = t \<Longrightarrow>
   pendingCount (filter (\<lambda>msg. id_msg msg \<noteq> t) xs) = 0"
  unfolding pendingCount_zero by auto

lemma pendingCount_append_tempId:
  assumes "pendingCount xs = 0" "id_msg m = ''temp_'' @ s"
  shows "pendingCount (xs @ [m]) = 1"
    and "\<forall>x \<in> set (xs @ [m]). isPending x \<longrightarrow> id_msg x = id_msg m"
proof -
  have "isPending m" using assms(2) by (rule tempId_isPending)
  moreover have "filter isPending xs = []" using assms(1) by (simp add: pendingCount_def)
  ultimately show "pendingCount (xs @ [m]) = 1" by (simp add: pendingCount_def)
  show "\<forall>x \<in> set (xs @ [m]). isPending x \<longrightarrow> id_msg x = id_msg m"
    using assms(1) unfolding pendingCount_zero by auto
qed


section \<open>Serialized sends as an invariant of the transition system\<close>

lemma sendInvariant_frame:
  "messages (ui c') = messages (ui c) \<Longrightarrow> isSending (ui c') = isSending (ui c) \<Longrightarrow>
   sendsInFlight c' = sendsInFlight c \<Longrightarrow> sendInvariant c \<Longrightarrow> sendInvariant c'"
  unfolding sendInvariant_def by metis

lemma sendInvariant_submit:
  "sendInvariant c \<Longrightarrow> sendInvariant (step (Submit ms suffix now r) c)"
proof (cases "currentUser (ui c) = None \<or> trim (newMessage (ui c)) = [] \<or> isSending (ui c)")
  case True
  assume "sendInvariant c"
  then show ?thesis
    using sendMessage_start_rejected [OF True]
    by (auto elim!: sendInvariant_frame [rotated 3])
next
  case False
  assume inv: "sendInvariant c"
  from False obtain u where g: "currentUser (ui c) = Some u" "trim (newMessage (ui c)) \<noteq> []"
    "\<not> isSending (ui c)" by auto
  from sendMessage_start_tempId [OF g, of ms suffix now r]
  obtain p where p: "fst (sendMessage_start ms suffix now r (ui c)) = Some p"
    "tempId p = ''temp_'' @ digitsOf ms @ ''_'' @ suffix" by auto
  have clean: "pendingCount (messages (ui c)) = 0" "sendsInFlight c = []"
    using inv g by (simp_all add: sendInvariant_def)
  obtain st1 where st1: "sendMessage_start ms suffix now r (ui c) = (Some p, st1)"
    using p(1) by (cases "sendMessage_start ms suffix now r (ui c)") simp
  from sendMessage_start_messages [OF g, of ms suffix now r] st1
  obtain m where m: "messages st1 = messages (ui c) @ [m]" "id_msg m = tempId p"
    using p(2) by simp
  have "isSending st1"
    using sendMessage_start_flags(1) [OF g, of ms suffix now r] st1 by simp
  moreover have "step (Submit ms suffix now r) c = c\<lparr>ui := st1, sendsInFlight := [p]\<rparr>"
    using st1 clean(2) by simp
  ultimately show ?thesis
    using pendingCount_append_tempId [OF clean(1), of m "digitsOf ms @ ''_'' @ suffix"] m p(2)
    by (simp add: sendInvariant_def)
qed

lemma sendInvariant_sendSettled:
  assumes "serverIdsOk (SendSettled tid res)" "sendInvariant c"
  shows "sendInvariant (step (SendSettled tid res) c)"
proof (cases "isSending (ui c)")
  case False
  with assms(2) have "sendsInFlight c = []" by (simp add: sendInvariant_def)
  with assms(2) show ?thesis by simp
next
  case True
  with assms(2) obtain p where p: "sendsInFlight c = [p]"
    "\<forall>m \<in> set (messages (ui c)). isPending m \<longrightarrow> id_msg m = tempId p"
    unfolding sendInvariant_def by blast
  show ?thesis
  proof (cases "tempId p = tid")
    case False
    with p assms(2) show ?thesis by simp
  next
    case same: True
    have s: "step (SendSettled tid res) c =
             c\<lparr>ui := sendMessage_settle p res (ui c), sendsInFlight := []\<rparr>"
      using p(1) same by simp
    show ?thesis
    proof (cases res)
      case (Fulfilled m)
      with assms(1) have "\<not> isPending m" by simp
      from replace_clears_pending [OF p(2) this] Fulfilled show ?thesis
        unfolding s by (simp add: sendInvariant_def sendMessage_settle_def)
    next
      case Rejected
      with remove_clears_pending [OF p(2)] show ?thesis
        unfolding s by (simp add: sendInvariant_def sendMessage_settle_def toast_def)
    qed
  qed
qed

lemma sendInvariant_replace:
  assumes "sendInvariant c" "pendingCount xs = 0"
  shows "sendInvariant (c\<lparr>ui := (ui c)\<lparr>messages := xs, isLoading := b\<rparr>, loadsInFlight := l\<rparr>)"
proof -
  from assms(2) have "\<forall>m \<in> set xs. \<not> isPending m"
    by (simp add: pendingCount_zero)
  with assms show ?thesis
    unfolding sendInvariant_def by auto
qed

lemma sendInvariant_messagesSettled:
  assumes "serverIdsOk (MessagesSettled target res)" "sendInvariant c"
  shows "sendInvariant (step (MessagesSettled target res) c)"
proof (cases "target \<in> set (loadsInFlight c)")
  case False
  with assms show ?thesis by simp
next
  case True
  show ?thesis
  proof (cases res)
    case Rejected
    with True show ?thesis
      by (auto intro!: sendInvariant_frame [OF _ _ _ assms(2)]
          simp add: loadRoomMessages_settle_def toast_def)
  next
    case (Fulfilled r)
    have "pendingCount (orEmpty r) = 0"
      using assms(1) Fulfilled by (cases r) (simp_all add: pendingCount_def orEmpty_def)
    from sendInvariant_replace [OF assms(2) this] True Fulfilled show ?thesis
      by (simp add: loadRoomMessages_settle_def)
  qed
qed

lemma sendInvariant_step:
  "serverIdsOk e \<Longrightarrow> sendInvariant c \<Longrightarrow> sendInvariant (step e c)"
proof (cases e)
  case (Submit ms suffix now r)
  assume "sendInvariant c"
  with Submit show ?thesis using sendInvariant_submit by simp
next
  case (SendSettled tid res)
  assume "serverIdsOk e" "sendInvariant c"
  with SendSettled show ?thesis using sendInvariant_sendSettled by simp
next
  case (MessagesSettled target res)
  assume "serverIdsOk e" "sendInvariant c"
  with MessagesSettled show ?thesis using sendInvariant_messagesSettled by simp
qed (auto elim!: sendInvariant_frame [rotated 3]
      simp add: activeRoomEffect_frame render_frame handleRoomSelect_def handleRoomCreated_def
        handleRoomJoined_def handleRoomUpdated_def handleRoomLeft_def handleRoomDeleted_def
        loadChatRooms_settle_def loadChatProfile_settle_def toast_def Let_def
      split: option.splits settled.splits)

lemma sendInvariant_run:
  "list_all serverIdsOk evs \<Longrightarrow> sendInvariant c \<Longrightarrow> sendInvariant (run evs c)"
  unfolding run_def
  by (induction evs arbitrary: c) (simp_all add: sendInvariant_step)

lemma sendInvariant_mount: "sendInvariant (mount user stored)"
  by (simp add: sendInvariant_def mount_def initialState_def loadRoomMessages_start_def
      pendingCount_def)

lemma sendInvariant_bounds:
  "sendInvariant c \<Longrightarrow>
   pendingCount (messages (ui c)) \<le> 1 \<and> length (sendsInFlight c) \<le> 1"
  unfolding sendInvariant_def by (cases "isSending (ui c)") auto

section \<open>The anonymous name is stable along every run\<close>

lemma isOwnMessage_identity:
  "currentUsername st \<noteq> [] \<Longrightarrow> identityOf (snd (isOwnMessage r m st)) = identityOf st"
  by (simp add: isOwnMessage_def getSessionUsername_cached split: option.splits)

lemma fold_isOwnMessage_identity:
  "currentUsername st \<noteq> [] \<Longrightarrow>
   identityOf (fold (\<lambda>message s. snd (isOwnMessage r message s)) xs st) = identityOf st"
proof (induction xs arbitrary: st)
  case Nil
  show ?case by simp
next
  case (Cons x xs)
  from Cons.prems have a: "identityOf (snd (isOwnMessage r x st)) = identityOf st"
    by (rule isOwnMessage_identity)
  with Cons.prems have "currentUsername (snd (isOwnMessage r x st)) \<noteq> []"
    by (simp add: identityOf_def)
  from Cons.IH [OF this] a show ?case by simp
qed

lemma render_identity:
  "currentUsername st \<noteq> [] \<Longrightarrow> identityOf (render r st) = identityOf st"
  by (simp add: render_def fold_isOwnMessage_identity)

lemma sendMessage_start_identity:
  "currentUsername st \<noteq> [] \<Longrightarrow>
   identityOf (snd (sendMessage_start ms suffix now r st)) = identityOf st"
  by (simp add: sendMessage_start_def Let_def getSessionUsername_cached identityOf_def
      split: option.splits)

lemma activeRoomEffect_identity: "identityOf (ui (activeRoomEffect b c)) = identityOf (ui c)"
  by (simp add: activeRoomEffect_def loadRoomMessages_start_def identityOf_def)

lemma step_identity:
  "currentUsername (ui c) \<noteq> [] \<Longrightarrow> identityOf (ui (step e c)) = identityOf (ui c)"
proof (cases e)
  case (Submit ms suffix now r)
  assume "currentUsername (ui c) \<noteq> []"
  from sendMessage_start_identity [OF this, of ms suffix now r] Submit show ?thesis
    by (cases "sendMessage_start ms suffix now r (ui c)") (auto split: option.splits)
next
  case (Rendered r)
  assume "currentUsername (ui c) \<noteq> []"
  from render_identity [OF this] Rendered show ?thesis by simp
qed (auto simp add: activeRoomEffect_identity,
     auto simp add: identityOf_def handleRoomSelect_def handleRoomCreated_def
        handleRoomJoined_def handleRoomUpdated_def handleRoomLeft_def handleRoomDeleted_def
        loadChatRooms_settle_def loadChatProfile_settle_def loadRoomMessages_settle_def
        sendMessage_settle_def toast_def Let_def
      split: option.splits settled.splits)

lemma run_identity:
  "currentUsername (ui c) \<noteq> [] \<Longrightarrow> identityOf (ui (run evs c)) = identityOf (ui c)"
  unfolding run_def
proof (induction evs arbitrary: c)
  case Nil
  show ?case by simp
next
  case (Cons e evs)
  from step_identity [OF Cons.prems, of e] Cons.prems
  have "currentUsername (ui (step e c)) \<noteq> []" by (simp add: identityOf_def)
  from Cons.IH [OF this] step_identity [OF Cons.prems, of e] show ?case by simp
qed

section \<open>The room list after a fetch\<close>

lemma find_Some_filter: "find P xs = Some y \<Longrightarrow> filter P xs \<noteq> []"
  by (induction xs) (auto split: if_splits)

lemma find_None_filter: "find P xs = None \<Longrightarrow> filter P xs = []"
  by (induction xs) (auto split: if_splits)

lemma loadChatRooms_fulfilled:
  "rooms (loadChatRooms_settle now (Fulfilled resp) st) =
     (if countRoomId ''global'' (orEmpty resp) = 0 then orEmpty resp @ [globalRoom now]
      else orEmpty resp)"
  by (auto simp add: loadChatRooms_settle_def countRoomId_def orEmpty_def Let_def
      dest: find_Some_filter find_None_filter split: option.splits)

lemma one_global_after_fetch:
  assumes "countRoomId ''global'' (orEmpty resp) \<le> 1"
  shows "countRoomId ''global''
           (if countRoomId ''global'' (orEmpty resp) = 0 then orEmpty resp @ [globalRoom now]
            else orEmpty resp) = 1"
proof (cases "countRoomId ''global'' (orEmpty resp) = 0")
  case True
  then show ?thesis by (simp add: countRoomId_def globalRoom_def)
next
  case False
  with assms show ?thesis by simp
qed

section \<open>Events between a submit and its confirmation\<close>



lemma run_append: "run (xs @ ys) c = run ys (run xs c)"
  by (simp add: run_def)


section \<open>Room-switch race (C1)\<close>

text \<open>
  C1, as the code behaves. Suppose a history load for room \<open>A\<close> is in flight, the user
  switches the active room to a different room \<open>B\<close>, and the load for \<open>B\<close> completes: the
  list shown is then the history of \<open>B\<close> and the load for \<open>A\<close> is still outstanding. When
  the load for \<open>A\<close> completes afterwards, \<open>B\<close> stays the active room and the list shown
  becomes the history of \<open>A\<close>: a load carries no tag, and its response is stored whatever
  the active room is, so the response that arrives last wins.
\<close>

theorem late_load_overwrites_active_room:
  assumes "A \<in> set (loadsInFlight c)" and "A \<noteq> B"
    and "B \<noteq> activeRoomId (ui c)" and "B \<noteq> []"
  shows "activeRoomId (ui (run [SelectRoom B, MessagesSettled B (Fulfilled msB)] c)) = B
     \<and> messages (ui (run [SelectRoom B, MessagesSettled B (Fulfilled msB)] c)) = orEmpty msB
     \<and> A \<in> set (loadsInFlight (run [SelectRoom B, MessagesSettled B (Fulfilled msB)] c))
     \<and> activeRoomId (ui (step (MessagesSettled A (Fulfilled msA))
                            (run [SelectRoom B, MessagesSettled B (Fulfilled msB)] c))) = B
     \<and> messages (ui (step (MessagesSettled A (Fulfilled msA))
                        (run [SelectRoom B, MessagesSettled B (Fulfilled msB)] c))) = orEmpty msA"
  using assms
  by (simp add: run_def activeRoomEffect_def handleRoomSelect_def loadRoomMessages_start_def
      loadRoomMessages_settle_def)

text \<open>
  C1, witness of the theorem above: from the mounted page the user has selected \<open>r1\<close>, whose
  load is in flight, and switches to \<open>r2\<close>.
\<close>

theorem late_load_overwrites_active_room_witness:
  "''r1'' \<in> set (loadsInFlight (run [SelectRoom ''r1''] (mount (Some exUser) None)))
   \<and> ''r1'' \<noteq> ''r2''
   \<and> ''r2'' \<noteq> activeRoomId (ui (run [SelectRoom ''r1''] (mount (Some exUser) None)))
   \<and> ''r2'' \<noteq> []
   \<and> messages (ui (step (MessagesSettled ''r1'' (Fulfilled (Some [exMsg ''a1'' ''r1'' ''in r1''])))
        (run [SelectRoom ''r2'', MessagesSettled ''r2'' (Fulfilled None)]
           (run [SelectRoom ''r1''] (mount (Some exUser) None)))))
     = orEmpty (Some [exMsg ''a1'' ''r1'' ''in r1''])"
proof -
  let ?c = "run [SelectRoom ''r1''] (mount (Some exUser) None)"
  have h1: "''r1'' \<in> set (loadsInFlight ?c)"
    by (simp add: run_def mount_def initialState_def activeRoomEffect_def handleRoomSelect_def
        loadRoomMessages_start_def)
  have h2: "''r1'' \<noteq> ''r2''" by simp
  have h3: "''r2'' \<noteq> activeRoomId (ui ?c)"
    by (simp add: run_def mount_def initialState_def activeRoomEffect_def handleRoomSelect_def
        loadRoomMessages_start_def)
  have h4: "''r2'' \<noteq> []" by simp
  from late_load_overwrites_active_room [OF h1 h2 h3 h4,
      of None "Some [exMsg ''a1'' ''r1'' ''in r1'']"] h1 h2 h3 h4
  show ?thesis by blast
qed

text \<open>
  C1, counterexample to the claim as stated. After \<open>raceTrace\<close> the load for \<open>r1\<close> is still
  in flight, \<open>r2\<close> is active and its history is shown; the late completion of the load for
  \<open>r1\<close> is not discarded: \<open>r2\<close> is still active and the list shown is the history of \<open>r1\<close>.
\<close>

theorem room_switch_discard_counterexample:
  "''r1'' \<in> set (loadsInFlight (run raceTrace (mount (Some exUser) None)))
   \<and> activeRoomId (ui (run raceTrace (mount (Some exUser) None))) = ''r2''
   \<and> messages (ui (run raceTrace (mount (Some exUser) None))) = [exMsg ''b1'' ''r2'' ''in r2'']
   \<and> activeRoomId (ui (step lateCompletion (run raceTrace (mount (Some exUser) None)))) = ''r2''
   \<and> messages (ui (step lateCompletion (run raceTrace (mount (Some exUser) None))))
       = [exMsg ''a1'' ''r1'' ''in r1'']
   \<and> messages (ui (step lateCompletion (run raceTrace (mount (Some exUser) None))))
       \<noteq> messages (ui (run raceTrace (mount (Some exUser) None)))"
  by (simp add: raceTrace_def lateCompletion_def run_def mount_def initialState_def
      activeRoomEffect_def handleRoomSelect_def loadRoomMessages_start_def
      loadRoomMessages_settle_def orEmpty_def exMsg_def)

section \<open>Room events (C2)\<close>

text \<open>
  C2, as the code behaves. A \<open>created\<close> event, and likewise a \<open>joined\<close> event, appends the
  room at the end of the room list and makes it the active room, whether or not its id is
  already in the list: each delivery adds exactly one entry with that id.
\<close>

theorem room_event_appends_unconditionally:
  "rooms (handleRoomCreated room st) = rooms st @ [room]
   \<and> activeRoomId (handleRoomCreated room st) = id_room room
   \<and> countRoomId (id_room room) (rooms (handleRoomCreated room st))
       = countRoomId (id_room room) (rooms st) + 1
   \<and> rooms (handleRoomJoined room st) = rooms st @ [room]
   \<and> activeRoomId (handleRoomJoined room st) = id_room room
   \<and> countRoomId (id_room room) (rooms (handleRoomJoined room st))
       = countRoomId (id_room room) (rooms st) + 1"
  by (simp add: handleRoomCreated_def handleRoomJoined_def countRoomId_def)

text \<open>
  C2, counterexample to the claim as stated. After one \<open>created\<close> event for room \<open>r1\<close> the
  list holds one entry with that id; after the same event is delivered again it holds two,
  and the same happens when a \<open>joined\<close> event for \<open>r1\<close> follows.
\<close>

theorem room_event_idempotent_counterexample:
  "countRoomId ''r1'' (rooms (ui (run [RoomCreated (exRoom ''r1'')] (mount (Some exUser) None)))) = 1
   \<and> countRoomId ''r1'' (rooms (ui (run [RoomCreated (exRoom ''r1''), RoomCreated (exRoom ''r1'')]
                                      (mount (Some exUser) None)))) = 2
   \<and> countRoomId ''r1'' (rooms (ui (run [RoomCreated (exRoom ''r1''), RoomJoined (exRoom ''r1'')]
                                      (mount (Some exUser) None)))) = 2"
  by (simp add: run_def mount_def initialState_def activeRoomEffect_def handleRoomCreated_def
      handleRoomJoined_def loadRoomMessages_start_def countRoomId_def exRoom_def)

section \<open>Rollback of a failed send (C3)\<close>

text \<open>
  C3. A submit of a draft whose trimmed content is not empty, by a signed-in user with no
  send in flight, issues a send. When that send fails, then in the resulting state no
  message carries the local identifier of the send, the compose field holds the trimmed
  content that was submitted, the sending flag is cleared and an error toast has been
  raised. This holds whatever happened to the state \<open>st'\<close> between the submit and the
  failure; \<open>st'\<close> is in particular the state the submit left.
\<close>

theorem failed_send_rolls_back:
  assumes "currentUser st = Some u" and "trim (newMessage st) \<noteq> []" and "\<not> isSending st"
  shows "\<exists>p. fst (sendMessage_start ms suffix now r st) = Some p
     \<and> tempId p \<notin> set (map id_msg (messages (sendMessage_settle p Rejected st')))
     \<and> newMessage (sendMessage_settle p Rejected st') = trim (newMessage st)
     \<and> \<not> isSending (sendMessage_settle p Rejected st')
     \<and> toasts (sendMessage_settle p Rejected st')
         = toasts st' @ [errorToast ''Failed to send message'']"
proof -
  from sendMessage_start_tempId [OF assms, of ms suffix now r]
  obtain p where p: "fst (sendMessage_start ms suffix now r st) = Some p"
    "messageText p = trim (newMessage st)" by auto
  have "tempId p \<notin> set (map id_msg (messages (sendMessage_settle p Rejected st')))"
    by (auto simp add: sendMessage_settle_def toast_def)
  with p show ?thesis
    by (auto simp add: sendMessage_settle_def toast_def)
qed

text \<open>
  C3, witness: the draft \<open>'' hello ''\<close> is submitted in \<open>exTyping\<close> and the send fails at
  once; the compose field is \<open>''hello''\<close> again.
\<close>

theorem failed_send_rolls_back_witness:
  "currentUser exTyping = Some exUser \<and> trim (newMessage exTyping) \<noteq> []
   \<and> \<not> isSending exTyping
   \<and> (\<exists>p. fst (sendMessage_start 1700000000000 ''k3j9x2a1b'' ''2024-05-01T10:01:00.000Z'' 41
               exTyping) = Some p
        \<and> tempId p \<notin> set (map id_msg (messages (sendMessage_settle p Rejected
             (snd (sendMessage_start 1700000000000 ''k3j9x2a1b'' ''2024-05-01T10:01:00.000Z'' 41
                exTyping)))))
        \<and> newMessage (sendMessage_settle p Rejected
             (snd (sendMessage_start 1700000000000 ''k3j9x2a1b'' ''2024-05-01T10:01:00.000Z'' 41
                exTyping))) = ''hello'')"
proof -
  have h1: "currentUser exTyping = Some exUser"
    by (simp add: exTyping_def initialState_def)
  have h2: "trim (newMessage exTyping) \<noteq> []"
    by (simp add: exTyping_def initialState_def trim_def isWhiteSpace_def)
  have h3: "\<not> isSending exTyping"
    by (simp add: exTyping_def initialState_def)
  have t: "trim (newMessage exTyping) = ''hello''"
    by (simp add: exTyping_def initialState_def trim_def isWhiteSpace_def)
  from failed_send_rolls_back [OF h1 h2 h3, of 1700000000000 "''k3j9x2a1b''"
      "''2024-05-01T10:01:00.000Z''" 41
      "snd (sendMessage_start 1700000000000 ''k3j9x2a1b'' ''2024-05-01T10:01:00.000Z'' 41
         exTyping)"]
  show ?thesis using h1 h2 h3 unfolding t by blast
qed

section \<open>Reconciliation of a confirmed send (C4)\<close>




section \<open>Serialized sends (C5)\<close>

text \<open>
  C5. In every state in which a send is in flight (the sending flag is set) a submit is
  rejected: it issues no send, appends no pending message and leaves the state, and the
  whole page, unchanged. Hence, along every run of the mounted page in which the
  identifiers assigned by the service are not of the pending style, the message list
  holds at most one pending message and at most one send is outstanding.
\<close>

theorem sends_are_serialized:
  assumes "isSending (ui c)" and "list_all serverIdsOk evs"
  shows "sendMessage_start ms suffix now r (ui c) = (None, ui c)
     \<and> step (Submit ms suffix now r) c = c
     \<and> pendingCount (messages (ui (run evs (mount user stored)))) \<le> 1
     \<and> length (sendsInFlight (run evs (mount user stored))) \<le> 1"
proof -
  have a: "sendMessage_start ms suffix now r (ui c) = (None, ui c)"
    using assms(1) by (simp add: sendMessage_start_rejected)
  then have b: "step (Submit ms suffix now r) c = c" by simp
  from sendInvariant_bounds [OF sendInvariant_run [OF assms(2) sendInvariant_mount]] a b
  show ?thesis by simp
qed

text \<open>
  C5, witness: in \<open>exSending\<close> the draft has been submitted and the send is in flight; the
  second submit of \<open>sendTrace\<close> changes nothing, and the run holds at most one pending
  message at its end.
\<close>

theorem sends_are_serialized_witness:
  "isSending (ui exSending) \<and> list_all serverIdsOk sendTrace
   \<and> step (Submit 1700000000005 ''q8w7e6r5t'' ''2024-05-01T10:01:00.005Z'' 77) exSending
       = exSending
   \<and> pendingCount (messages (ui (run sendTrace (mount (Some exUser) None)))) \<le> 1
   \<and> length (sendsInFlight (run sendTrace (mount (Some exUser) None))) \<le> 1"
proof -
  have h1: "isSending (ui exSending)"
    by (simp add: exSending_def sendTrace_def run_def mount_def initialState_def
        loadRoomMessages_start_def sendMessage_start_def Let_def trim_def isWhiteSpace_def
        getSessionUsername_def generateUsername_def exUser_def)
  have h2: "list_all serverIdsOk sendTrace"
    by (simp add: sendTrace_def exMsg_def isPending_def startsWith_def)
  from sends_are_serialized [OF h1 h2,
      of 1700000000005 "''q8w7e6r5t''" "''2024-05-01T10:01:00.005Z''" 77 "Some exUser" None]
  show ?thesis using h1 h2 by blast
qed

section \<open>Global room after loading the room list (C6)\<close>

text \<open>
  C6, as the code behaves. Whenever the room-list fetch succeeds, the local room list
  becomes the response, followed, when the response holds no room with id \<open>global\<close>, by
  the synthesized room (name \<open>Global Chat\<close>, code \<open>GLOBAL\<close>, type \<open>global\<close>, no members,
  created by \<open>system\<close>, at most 1000 members); a response that holds such rooms is stored
  as it is. Hence, for every response that holds at most one room with id \<open>global\<close>, the
  list afterwards holds exactly one. Loading the same response again does not duplicate
  that room: the list still holds exactly one, and it is the list a single load gives.
\<close>

theorem loadChatRooms_one_global:
  assumes "countRoomId ''global'' (orEmpty resp) \<le> 1"
  shows "countRoomId ''global'' (rooms (loadChatRooms_settle now (Fulfilled resp) st)) = 1
     \<and> rooms (loadChatRooms_settle now (Fulfilled resp) st)
         = (if countRoomId ''global'' (orEmpty resp) = 0
            then orEmpty resp @
                 [\<lparr>id_room = ''global'', name = ''Global Chat'', code = ''GLOBAL'',
                   type_room = ''global'', members = [], createdBy = ''system'',
                   createdAt = now, maxMembers = 1000, unreadCount = 0\<rparr>]
            else orEmpty resp)
     \<and> countRoomId ''global''
         (rooms (loadChatRooms_settle now' (Fulfilled resp)
                   (loadChatRooms_settle now (Fulfilled resp) st))) = 1
     \<and> rooms (loadChatRooms_settle now' (Fulfilled resp)
                 (loadChatRooms_settle now (Fulfilled resp) st))
         = rooms (loadChatRooms_settle now' (Fulfilled resp) st)"
proof -
  note first = loadChatRooms_fulfilled [of now resp st]
  note again = loadChatRooms_fulfilled
    [of now' resp "loadChatRooms_settle now (Fulfilled resp) st"]
  note once = loadChatRooms_fulfilled [of now' resp st]
  have "countRoomId ''global'' (rooms (loadChatRooms_settle now (Fulfilled resp) st)) = 1"
    unfolding first using assms by (rule one_global_after_fetch)
  moreover have "countRoomId ''global''
         (rooms (loadChatRooms_settle now' (Fulfilled resp)
                   (loadChatRooms_settle now (Fulfilled resp) st))) = 1"
    unfolding again using assms by (rule one_global_after_fetch)
  moreover have "rooms (loadChatRooms_settle now' (Fulfilled resp)
                          (loadChatRooms_settle now (Fulfilled resp) st))
         = rooms (loadChatRooms_settle now' (Fulfilled resp) st)"
    unfolding again once by (rule refl)
  ultimately show ?thesis
    using first by (simp add: globalRoom_def)
qed

text \<open>
  C6, witness: the service answers with one private room and no global room; the list
  becomes that room followed by the synthesized global room, also after a second load.
\<close>

theorem loadChatRooms_one_global_witness:
  "countRoomId ''global'' (orEmpty (Some [exRoom ''r1''])) \<le> 1
   \<and> countRoomId ''global''
        (rooms (loadChatRooms_settle ''2024-05-01T10:00:00.000Z'' (Fulfilled (Some [exRoom ''r1'']))
           (initialState (Some exUser) None))) = 1
   \<and> countRoomId ''global''
        (rooms (loadChatRooms_settle ''2024-05-01T10:00:09.000Z'' (Fulfilled (Some [exRoom ''r1'']))
           (loadChatRooms_settle ''2024-05-01T10:00:00.000Z'' (Fulfilled (Some [exRoom ''r1'']))
              (initialState (Some exUser) None)))) = 1"
proof -
  have h: "countRoomId ''global'' (orEmpty (Some [exRoom ''r1''])) \<le> 1"
    by (simp add: countRoomId_def orEmpty_def exRoom_def)
  from loadChatRooms_one_global [OF h, of "''2024-05-01T10:00:00.000Z''"
      "initialState (Some exUser) None" "''2024-05-01T10:00:09.000Z''"]
  show ?thesis using h by blast
qed

text \<open>
  C6, counterexample to the claim as stated. For the response \<open>twoGlobals\<close>, which holds two
  rooms with id \<open>global\<close>, the local room list holds two such rooms after the load.
\<close>

theorem loadChatRooms_two_globals_counterexample:
  "countRoomId ''global''
     (rooms (loadChatRooms_settle ''2024-05-01T10:00:00.000Z'' (Fulfilled twoGlobals)
        (initialState (Some exUser) None))) = 2"
  by (simp add: loadChatRooms_settle_def twoGlobals_def orEmpty_def globalRoom_def exRoom_def
      countRoomId_def Let_def)

section \<open>A failed room-list fetch (C7)\<close>

text \<open>
  C7. In every state, when the room-list fetch is rejected the local room list is what it
  was before, an error toast is raised, and nothing else in the state changes.
\<close>

theorem loadChatRooms_failure_keeps_rooms:
  "rooms (loadChatRooms_settle now Rejected st) = rooms st
   \<and> toasts (loadChatRooms_settle now Rejected st)
       = toasts st @ [\<lparr>title = ''Error'', description = ''Failed to load chat rooms'',
                       variant = ''destructive''\<rparr>]
   \<and> loadChatRooms_settle now Rejected st
       = st\<lparr>toasts := toasts (loadChatRooms_settle now Rejected st)\<rparr>"
  by (simp add: loadChatRooms_settle_def toast_def errorToast_def)

section \<open>Stable session identity (C8)\<close>

text \<open>
  C8. Let \<^verbatim>\<open>getSessionUsername\<close> be called in any state of the page. Whatever events follow
  (room switches, renders, submits, responses), a later call returns the same name, and
  it leaves the session store as the first call left it: it neither generates nor
  persists, whatever it would have drawn. The same holds for a second call made with the
  cached name still as it was before the first call, as within one render.
\<close>

theorem getSessionUsername_stable:
  "fst (getSessionUsername r2 (ui (run evs (c\<lparr>ui := snd (getSessionUsername r1 (ui c))\<rparr>))))
     = fst (getSessionUsername r1 (ui c))
   \<and> storedChatUsername
       (snd (getSessionUsername r2 (ui (run evs (c\<lparr>ui := snd (getSessionUsername r1 (ui c))\<rparr>)))))
     = storedChatUsername (snd (getSessionUsername r1 (ui c)))
   \<and> fst (getSessionUsername r2
            ((snd (getSessionUsername r1 (ui c)))\<lparr>currentUsername := currentUsername (ui c)\<rparr>))
     = fst (getSessionUsername r1 (ui c))
   \<and> storedChatUsername
       (snd (getSessionUsername r2
               ((snd (getSessionUsername r1 (ui c)))\<lparr>currentUsername := currentUsername (ui c)\<rparr>)))
     = storedChatUsername (snd (getSessionUsername r1 (ui c)))"
proof -
  let ?st1 = "snd (getSessionUsername r1 (ui c))"
  let ?c2 = "run evs (c\<lparr>ui := ?st1\<rparr>)"
  have n: "currentUsername ?st1 \<noteq> []"
    using getSessionUsername_caches [of r1 "ui c"] by simp
  then have "identityOf (ui ?c2) = identityOf ?st1"
    using run_identity [of "c\<lparr>ui := ?st1\<rparr>" evs] by simp
  then have same: "currentUsername (ui ?c2) = fst (getSessionUsername r1 (ui c))"
    "storedChatUsername (ui ?c2) = storedChatUsername ?st1"
    using getSessionUsername_caches(1) [of r1 "ui c"] by (simp_all add: identityOf_def)
  with n have "getSessionUsername r2 (ui ?c2) = (fst (getSessionUsername r1 (ui c)), ui ?c2)"
    using getSessionUsername_cached [of "ui ?c2" r2] getSessionUsername_caches(2) [of r1 "ui c"]
    by simp
  with same have a: "fst (getSessionUsername r2 (ui ?c2)) = fst (getSessionUsername r1 (ui c))"
    "storedChatUsername (snd (getSessionUsername r2 (ui ?c2))) = storedChatUsername ?st1"
    by simp_all
  have b: "fst (getSessionUsername r2 (?st1\<lparr>currentUsername := currentUsername (ui c)\<rparr>))
             = fst (getSessionUsername r1 (ui c))
     \<and> storedChatUsername
         (snd (getSessionUsername r2 (?st1\<lparr>currentUsername := currentUsername (ui c)\<rparr>)))
       = storedChatUsername ?st1"
    by (auto simp add: getSessionUsername_def generateUsername_def newUsername_nonempty
        split: option.splits)
  from a b show ?thesis by blast
qed

section \<open>Own-message attribution (C9)\<close>

text \<open>
  C9. For a signed-in user, while the active room is the global room a message is
  attributed to the caller exactly when its username equals the session username that
  \<^verbatim>\<open>getSessionUsername\<close> resolves; in every other active room, exactly when its user id equals
  the caller's user id.
\<close>

theorem isOwnMessage_by_room:
  assumes "currentUser st = Some u"
  shows "fst (isOwnMessage r message st)
         = (if activeRoomId st = ''global''
            then username message = fst (getSessionUsername r st)
            else userId message = uid u)"
  using assms by (simp add: isOwnMessage_def case_prod_beta)

text \<open>
  C9, witness: in the global room with the name \<open>Student7\<close> cached, the message of
  \<open>Student7\<close> is the caller's own although its user id is another one.
\<close>

theorem isOwnMessage_by_room_witness:
  "currentUser (exTyping\<lparr>currentUsername := ''Student7''\<rparr>) = Some exUser
   \<and> fst (isOwnMessage 41 (exMsg ''m1'' ''global'' ''hi'')
            (exTyping\<lparr>currentUsername := ''Student7''\<rparr>))"
proof -
  have h1: "currentUser (exTyping\<lparr>currentUsername := ''Student7''\<rparr>) = Some exUser"
    by (simp add: exTyping_def initialState_def)
  from isOwnMessage_by_room [OF h1, of 41 "exMsg ''m1'' ''global'' ''hi''"]
  show ?thesis using h1
    by (simp add: exTyping_def initialState_def exMsg_def getSessionUsername_def)
qed

section \<open>Identity carried by the pending message (C10)\<close>

text \<open>
  C10. A submit accepted while the global room is active appends a pending message whose
  user id is the user id of the signed-in caller and whose username is the session
  username; its user id does not depend on the anonymous name. The other fields are the
  local identifier, the trimmed content, the time of the submit, the global room and the
  moderation flag unset.
\<close>

theorem pending_message_identity:
  assumes "currentUser st = Some u" and "trim (newMessage st) \<noteq> []" and "\<not> isSending st"
    and "activeRoomId st = ''global''"
  shows "messages (snd (sendMessage_start ms suffix now r st)) = messages st @
           [\<lparr>id_msg = ''temp_'' @ digitsOf ms @ ''_'' @ suffix, userId = uid u,
             username = fst (getSessionUsername r st), content = trim (newMessage st),
             timestamp = now, roomId = ''global'', isModerated = False\<rparr>]"
  using sendMessage_start_messages [OF assms(1-3), of ms suffix now r] assms(4) by simp

text \<open>
  C10, witness: the submit of \<open>exTyping\<close> appends a pending message with user id \<open>u1\<close>, the
  caller's, and a generated anonymous username.
\<close>

theorem pending_message_identity_witness:
  "currentUser exTyping = Some exUser \<and> trim (newMessage exTyping) \<noteq> []
   \<and> \<not> isSending exTyping \<and> activeRoomId exTyping = ''global''
   \<and> userId (last (messages (snd (sendMessage_start 1700000000000 ''k3j9x2a1b''
                                      ''2024-05-01T10:01:00.000Z'' 41 exTyping)))) = ''u1''
   \<and> username (last (messages (snd (sendMessage_start 1700000000000 ''k3j9x2a1b''
                                        ''2024-05-01T10:01:00.000Z'' 41 exTyping))))
       = newUsername 41"
proof -
  have h1: "currentUser exTyping = Some exUser"
    by (simp add: exTyping_def initialState_def)
  have h2: "trim (newMessage exTyping) \<noteq> []"
    by (simp add: exTyping_def initialState_def trim_def isWhiteSpace_def)
  have h3: "\<not> isSending exTyping"
    by (simp add: exTyping_def initialState_def)
  have h4: "activeRoomId exTyping = ''global''"
    by (simp add: exTyping_def initialState_def)
  have n: "fst (getSessionUsername 41 exTyping) = newUsername 41"
    by (simp add: exTyping_def initialState_def getSessionUsername_def generateUsername_def)
  from pending_message_identity [OF h1 h2 h3 h4, of 1700000000000 "''k3j9x2a1b''"
      "''2024-05-01T10:01:00.000Z''" 41]
  show ?thesis using h1 h2 h3 h4 n by (simp add: exUser_def)
qed

end
